theory Spec2Isabelle
  imports Main "HOL-Library.AList" "HOL-Library.Multiset"
begin

section \<open>Column names: the string replacement of pandas\<close>

text \<open>
  \<^verbatim>\<open>process_datasets\<close> (src/orchestrators/fetch_datasets.py, lines 49-51) rewrites the
  column labels of the frame with two calls of \<^verbatim>\<open>Index.str.replace\<close>:
  \<^verbatim>\<open>
    patterns_to_remove = ["study_desc.", "doc_desc.", "study_info.", "method."]
    df.columns = df.columns.str.replace("|".join(patterns_to_remove), "", regex=True)
    df.columns = df.columns.str.replace("data_collection.", "method_")
  \<close>
  With \<^verbatim>\<open>regex=True\<close> the pattern is handed to \<^verbatim>\<open>re.sub\<close>; with \<^verbatim>\<open>regex=False\<close> it is
  handed to \<^verbatim>\<open>str.replace\<close>. The patterns of this program consist of ordinary
  characters, the dot and the bar, so a compiled pattern is a list of alternatives, each
  a list of atoms: a literal character, or the dot, which in Python matches every
  character but the line feed. A label is a \<open>string\<close>, one \<open>char\<close> per character (the
  keys of the two catalogues are ASCII).
\<close>

datatype atom = Lit char | AnyChar

fun accepts :: "atom \<Rightarrow> char \<Rightarrow> bool" where
  "accepts (Lit a) c = (a = c)"
| "accepts AnyChar c = (c \<noteq> CHR 0x0A)"

fun atom_of :: "char \<Rightarrow> atom" where
  "atom_of c = (if c = CHR ''.'' then AnyChar else Lit c)"

text \<open>The pattern string read as a regular expression: the bar separates alternatives.\<close>

fun re_compile :: "string \<Rightarrow> atom list list" where
  "re_compile [] = [[]]"
| "re_compile (c # cs) =
     (if c = CHR ''|'' then [] # re_compile cs
      else (case re_compile cs of
              [] \<Rightarrow> [[atom_of c]]
            | alt # alts \<Rightarrow> (atom_of c # alt) # alts))"

text \<open>
  Matching at the start of a string gives the number of characters matched. The
  alternatives are tried in the order written and the first that matches wins, as in
  Python's backtracking matcher.
\<close>

fun match_here :: "atom list \<Rightarrow> string \<Rightarrow> nat option" where
  "match_here [] s = Some 0"
| "match_here (a # ats) [] = None"
| "match_here (a # ats) (c # cs) =
     (if accepts a c then map_option Suc (match_here ats cs) else None)"

fun match_alts :: "atom list list \<Rightarrow> string \<Rightarrow> nat option" where
  "match_alts [] s = None"
| "match_alts (alt # alts) s =
     (case match_here alt s of Some n \<Rightarrow> Some n | None \<Rightarrow> match_alts alts s)"

text \<open>
  \<^verbatim>\<open>re.sub\<close>: scan from the left; the leftmost match is replaced and the scan goes on
  behind it, so the matches replaced do not overlap. (An empty match is replaced and
  the next character copied; no alternative of this program is empty.)
\<close>

fun re_sub :: "atom list list \<Rightarrow> string \<Rightarrow> string \<Rightarrow> string" where
  "re_sub alts repl [] = (case match_alts alts [] of None \<Rightarrow> [] | Some n \<Rightarrow> repl)"
| "re_sub alts repl (c # cs) =
     (case match_alts alts (c # cs) of
        None \<Rightarrow> c # re_sub alts repl cs
      | Some 0 \<Rightarrow> repl @ c # re_sub alts repl cs
      | Some (Suc n) \<Rightarrow> repl @ re_sub alts repl (drop n cs))"

text \<open>
  \<^verbatim>\<open>Series.str.replace(pat, repl, regex=...)\<close> on one label. Without \<^verbatim>\<open>regex\<close> the
  pattern is one alternative of literal characters.
\<close>

definition str_replace :: "bool \<Rightarrow> string \<Rightarrow> string \<Rightarrow> string \<Rightarrow> string" where
  "str_replace regex pat repl s =
     re_sub (if regex then re_compile pat else [map Lit pat]) repl s"

fun join :: "string \<Rightarrow> string list \<Rightarrow> string" where
  "join sep [] = []"
| "join sep [x] = x"
| "join sep (x # y # ys) = x @ sep @ join sep (y # ys)"

definition patterns_to_remove :: "string list" where
  "patterns_to_remove = [''study_desc.'', ''doc_desc.'', ''study_info.'', ''method.'']"

text \<open>
  The first call deletes the matches of the joined patterns. The second call passes no \<^verbatim>\<open>regex\<close> argument, so the default of the installed pandas
  decides (True before pandas 2.0, False since). The repository pins no version; the
  default is the parameter \<open>regex_default\<close>.
\<close>

definition remove_patterns :: "string \<Rightarrow> string" where
  "remove_patterns col = str_replace True (join ''|'' patterns_to_remove) [] col"

definition rewrite_column :: "bool \<Rightarrow> string \<Rightarrow> string" where
  "rewrite_column regex_default col =
     str_replace regex_default ''data_collection.'' ''method_'' (remove_patterns col)"

section \<open>Data frames\<close>

text \<open>
  A frame is a row count (the length of its index) and a list of labelled columns, in
  order; pandas allows two columns to carry the same label. A cell is \<open>None\<close> when it
  holds the missing-value marker (\<^verbatim>\<open>None\<close>/\<^verbatim>\<open>NaN\<close>).
\<close>

record 'v dataframe =
  nrows :: nat
  cols :: "(string \<times> 'v option list) list"

definition columns :: "'v dataframe \<Rightarrow> string list" where
  "columns df = map fst (cols df)"

text \<open>\<^verbatim>\<open>df.columns = df.columns.str.replace(...)\<close>: every label is rewritten in place.\<close>

definition rename_columns :: "(string \<Rightarrow> string) \<Rightarrow> 'v dataframe \<Rightarrow> 'v dataframe" where
  "rename_columns f df = df\<lparr>cols := map (\<lambda>(name, vs). (f name, vs)) (cols df)\<rparr>"

text \<open>Lines 49-51: the consolidation of the column names.\<close>

definition consolidate :: "bool \<Rightarrow> 'v dataframe \<Rightarrow> 'v dataframe" where
  "consolidate regex_default df =
     rename_columns (str_replace regex_default ''data_collection.'' ''method_'')
       (rename_columns remove_patterns df)"

text \<open>\<^verbatim>\<open>df.dropna(axis=1, how='all', inplace=True)\<close>: a column is dropped when every
  cell of it is missing.\<close>

definition all_na :: "'v option list \<Rightarrow> bool" where
  "all_na vs = list_all (\<lambda>v. v = None) vs"

definition dropna_columns :: "'v dataframe \<Rightarrow> 'v dataframe" where
  "dropna_columns df = df\<lparr>cols := filter (\<lambda>(name, vs). \<not> all_na vs) (cols df)\<rparr>"

text \<open>\<^verbatim>\<open>df.drop(label, axis=1, inplace=True)\<close>: every column with that label goes.\<close>

definition drop_column :: "string \<Rightarrow> 'v dataframe \<Rightarrow> 'v dataframe" where
  "drop_column label df = df\<lparr>cols := filter (\<lambda>(name, vs). name \<noteq> label) (cols df)\<rparr>"

text \<open>
  \<^verbatim>\<open>process_datasets\<close>, lines 48-57. The result is the frame handed to \<^verbatim>\<open>to_csv\<close>.
  The labels are strings (they are the flattened keys of JSON objects), and on such a
  frame none of the statements raises; a failure of the file system in \<^verbatim>\<open>to_csv\<close> is
  outside the model. (Where a statement does raise, as pandas may for the frame of an
  empty batch, whose column index holds no strings, the \<^verbatim>\<open>except\<close> branch prints the
  error and no table is written; the model's result for that frame has no column.)
\<close>

definition process_datasets :: "bool \<Rightarrow> 'v dataframe \<Rightarrow> 'v dataframe" where
  "process_datasets regex_default df =
     (let df1 = consolidate regex_default df;
          df2 = dropna_columns df1
      in if ''schematype'' \<in> set (columns df2) then drop_column ''schematype'' df2 else df2)"

section \<open>The harvest loop\<close>

text \<open>
  \<^verbatim>\<open>process_meta\<close> (fetch_datasets.py, lines 20-34) submits one call of
  \<^verbatim>\<open>fetch_function\<close> per identifier to a thread pool and takes the futures as they
  complete:
  \<^verbatim>\<open>
    for future in tqdm.tqdm(as_completed(futures), total=len(futures)):
        try:
            data = future.result()
            records.append(data)
        except Exception as e:
            print(f"An error occurred for ID {futures[future]}: {e}")
  \<close>
  A call of \<^verbatim>\<open>fetch_function\<close> ends in \<open>Inr data\<close> (it returned) or in \<open>Inl e\<close> (it raised
  the exception \<open>e\<close>, an instance of \<^verbatim>\<open>Exception\<close>), and \<^verbatim>\<open>future.result()\<close> hands
  the one or the other on. The order of completion is not fixed by the program: the
  loop takes the identifiers in the order \<open>completed\<close>, a rearrangement of the
  identifiers submitted. The state of the loop is the list \<^verbatim>\<open>records\<close> and the lines
  printed; the frame returned is \<^verbatim>\<open>pd.json_normalize(records)\<close>, one row per record.
\<close>

record ('i, 'e, 'r) harvest =
  records :: "'r list"
  printed :: "('i \<times> 'e) list"

definition collect ::
  "('i \<Rightarrow> 'e + 'r) \<Rightarrow> ('i, 'e, 'r) harvest \<Rightarrow> 'i \<Rightarrow> ('i, 'e, 'r) harvest" where
  "collect fetch_function h i =
     (case fetch_function i of
        Inr data \<Rightarrow> h\<lparr>records := records h @ [data]\<rparr>
      | Inl e \<Rightarrow> h\<lparr>printed := printed h @ [(i, e)]\<rparr>)"

definition process_meta :: "('i \<Rightarrow> 'e + 'r) \<Rightarrow> 'i list \<Rightarrow> ('i, 'e, 'r) harvest" where
  "process_meta fetch_function completed =
     foldl (collect fetch_function) \<lparr>records = [], printed = []\<rparr> completed"

text \<open>The records of the fetches that returned, and the failures with their identifiers.\<close>

definition fetched :: "('i \<Rightarrow> 'e + 'r) \<Rightarrow> 'i list \<Rightarrow> 'r list" where
  "fetched fetch_function ids =
     concat (map (\<lambda>i. case fetch_function i of Inr data \<Rightarrow> [data] | Inl e \<Rightarrow> []) ids)"

definition failed :: "('i \<Rightarrow> 'e + 'r) \<Rightarrow> 'i list \<Rightarrow> ('i \<times> 'e) list" where
  "failed fetch_function ids =
     concat (map (\<lambda>i. case fetch_function i of Inr data \<Rightarrow> [] | Inl e \<Rightarrow> [(i, e)]) ids)"

section \<open>The UNHCR fetcher\<close>

text \<open>
  \<^verbatim>\<open>fetch_dataset\<close> (src/sources/unhcr.py, lines 31-45):
  \<^verbatim>\<open>
    response = requests.get(DATASET_EXPORT_URL.format(id))
    response.raise_for_status()
    data = response.json()
    data["id"] = id
    return data
  \<close>
  The network is the parameter \<open>requests_get\<close>; each statement can raise, and the
  exception leaves the function.
\<close>

datatype json =
  JNull | JBool bool | JNum int | JStr string | JArr "json list" | JObj "(string \<times> json) list"

datatype fetch_error = RequestException | HTTPError nat | JSONDecodeError | TypeError

text \<open>A response: its status code, and its body as \<^verbatim>\<open>response.json()\<close> reads it
  (\<open>None\<close> when the body is not JSON).\<close>

record response =
  status_code :: nat
  body :: "json option"

definition DATASET_EXPORT_URL_format :: "string \<Rightarrow> string" where
  "DATASET_EXPORT_URL_format shown =
     ''https://microdata.unhcr.org/index.php/metadata/export/'' @ shown @ ''/json''"

definition raise_for_status :: "response \<Rightarrow> fetch_error + unit" where
  "raise_for_status r =
     (if 400 \<le> status_code r \<and> status_code r < 600 then Inl (HTTPError (status_code r))
      else Inr ())"

text \<open>
  \<^verbatim>\<open>data[key] = v\<close>: on a dict the key is updated in place, or appended when it is new
  (\<^const>\<open>AList.update\<close>); a list takes no string index and the other values take no item
  assignment, both a \<^verbatim>\<open>TypeError\<close>.
\<close>

definition setitem :: "json \<Rightarrow> string \<Rightarrow> json \<Rightarrow> fetch_error + json" where
  "setitem data key v =
     (case data of JObj kvs \<Rightarrow> Inr (JObj (AList.update key v kvs)) | _ \<Rightarrow> Inl TypeError)"

text \<open>The identifier is a cell of the metadata file, a number or a string; \<open>shown\<close> is
  how \<^verbatim>\<open>str.format\<close> prints it.\<close>

definition fetch_dataset ::
  "(string \<Rightarrow> fetch_error + response) \<Rightarrow> (json \<Rightarrow> string) \<Rightarrow> json \<Rightarrow> fetch_error + json" where
  "fetch_dataset requests_get shown dataset_id =
     (case requests_get (DATASET_EXPORT_URL_format (shown dataset_id)) of
        Inl e \<Rightarrow> Inl e
      | Inr response \<Rightarrow>
          (case raise_for_status response of
             Inl e \<Rightarrow> Inl e
           | Inr _ \<Rightarrow>
               (case body response of
                  None \<Rightarrow> Inl JSONDecodeError
                | Some data \<Rightarrow> setitem data ''id'' dataset_id)))"

section \<open>The schema registry and the schema enforcer\<close>

text \<open>
  The tests import \<^verbatim>\<open>get_schema_for_source\<close> and \<^verbatim>\<open>enforce_schema\<close> from
  \<^verbatim>\<open>schemas/column_mappings.py\<close>, a file that is not among the sources. The definitions
  of this section are therefore written from the specification (sections 3, 4.3, 4.4).
\<close>

text \<open>
  Modelled from the spec: the data model of section 3, whose declarations are missing.
  A scalar of a row is a string, a number or a boolean; the missing-value marker is the
  cell \<open>None\<close>, which is not the empty string \<open>Some (Str [])\<close>. A type tag is one of
  \<^verbatim>\<open>str\<close>, \<^verbatim>\<open>numeric\<close>, \<^verbatim>\<open>bool\<close>.
\<close>

datatype scalar = Str string | Num int | Bool bool

datatype type_tag = TStr | TNumeric | TBool

text \<open>Modelled from the spec: a schema, the canonical column names in order, each with
  its declared type tag (an ordered mapping, so no name is declared twice).\<close>

type_synonym schema = "(string \<times> type_tag) list"

fun has_tag :: "type_tag \<Rightarrow> scalar \<Rightarrow> bool" where
  "has_tag TStr (Str s) = True"
| "has_tag TNumeric (Num n) = True"
| "has_tag TBool (Bool b) = True"
| "has_tag t v = False"

text \<open>
  Modelled from the spec: the coercion of \<^verbatim>\<open>enforce_schema\<close>, whose code is missing.
  ``Coerce each column toward its declared type tag where safely possible; a value that
  cannot be coerced is kept in its original representation; coercion failure is per
  value.'' Which values convert to which is not said, so the conversion table is the
  parameter \<open>conv\<close> (\<open>None\<close>: no safe conversion). A value that has the declared type
  stays, the missing-value marker stays missing, and a conversion is taken only when its
  result has the declared type.
\<close>

definition coerce ::
  "(type_tag \<Rightarrow> scalar \<Rightarrow> scalar option) \<Rightarrow> type_tag \<Rightarrow> scalar option \<Rightarrow> scalar option" where
  "coerce conv t cell =
     (case cell of
        None \<Rightarrow> None
      | Some v \<Rightarrow>
          if has_tag t v then Some v
          else (case conv t v of
                  None \<Rightarrow> Some v
                | Some w \<Rightarrow> if has_tag t w then Some w else Some v))"

text \<open>
  Modelled from the spec: \<^verbatim>\<open>enforce(rows, schema)\<close>, whose code is missing (section 4.4).
  The result has the columns of the schema in the schema's order: a declared column that
  the input has is kept and coerced, a declared column that the input lacks is filled
  with the missing-value marker in every row, and an input column that is not declared
  is not taken over.
\<close>

definition enforce ::
  "(type_tag \<Rightarrow> scalar \<Rightarrow> scalar option) \<Rightarrow> scalar dataframe \<Rightarrow> schema \<Rightarrow> scalar dataframe" where
  "enforce conv df schema =
     \<lparr>nrows = nrows df,
      cols = map (\<lambda>(name, tag).
                (name, case map_of (cols df) name of
                         None \<Rightarrow> replicate (nrows df) None
                       | Some vs \<Rightarrow> map (coerce conv tag) vs)) schema\<rparr>"

text \<open>The conversion table that converts nothing.\<close>

definition no_conversion :: "type_tag \<Rightarrow> scalar \<Rightarrow> scalar option" where
  "no_conversion t v = None"

text \<open>
  Modelled from the spec: the registered schemas, whose tables are missing. The spec and
  the tests name these columns only: the World Bank schema holds \<^verbatim>\<open>id\<close>, \<^verbatim>\<open>title\<close> and
  the five consolidated names of section 4.2, the UNHCR schema \<^verbatim>\<open>id\<close> and \<^verbatim>\<open>title\<close>.
\<close>

definition WORLD_BANK_SCHEMA :: schema where
  "WORLD_BANK_SCHEMA =
     [(''id'', TNumeric), (''title'', TStr),
      (''study.version_statement.version'', TStr),
      (''doc.version_statement.version'', TStr),
      (''info.notes'', TStr), (''method.notes'', TStr),
      (''method.sampling_procedure'', TStr)]"

definition UNHCR_SCHEMA :: schema where
  "UNHCR_SCHEMA = [(''id'', TNumeric), (''title'', TStr)]"

datatype registry_error = UnknownSource string

text \<open>
  Modelled from the spec: \<^verbatim>\<open>schema_for(source_id)\<close>, whose code is missing (section 4.3):
  the registered set is \<^verbatim>\<open>worldbank\<close> and \<^verbatim>\<open>unhcr\<close>, and every other identifier is an
  unknown-source error, with no default.
\<close>

definition schema_for :: "string \<Rightarrow> registry_error + schema" where
  "schema_for source_id =
     (if source_id = ''worldbank'' then Inr WORLD_BANK_SCHEMA
      else if source_id = ''unhcr'' then Inr UNHCR_SCHEMA
      else Inl (UnknownSource source_id))"

text \<open>
  \<^verbatim>\<open>pd.concat([a, b], ignore_index=True)\<close>, as the test of the concatenation calls it.
  Frames with the same labels in the same order are stacked. Otherwise the labels of the
  result are those of \<open>a\<close> followed by the new ones of \<open>b\<close> and the cells a frame lacks
  are missing; this needs unique labels, and pandas raises \<^verbatim>\<open>InvalidIndexError\<close> without.
\<close>

datatype concat_error = InvalidIndexError

definition pd_concat :: "'v dataframe \<Rightarrow> 'v dataframe \<Rightarrow> concat_error + 'v dataframe" where
  "pd_concat a b =
     (if columns a = columns b then
        Inr \<lparr>nrows = nrows a + nrows b,
             cols = map2 (\<lambda>(name, va) (name', vb). (name, va @ vb)) (cols a) (cols b)\<rparr>
      else if distinct (columns a) \<and> distinct (columns b) then
        Inr \<lparr>nrows = nrows a + nrows b,
             cols =
               map (\<lambda>(name, va).
                      (name, va @ (case map_of (cols b) name of
                                     None \<Rightarrow> replicate (nrows b) None
                                   | Some vb \<Rightarrow> vb))) (cols a)
               @ map (\<lambda>(name, vb). (name, replicate (nrows a) None @ vb))
                   (filter (\<lambda>(name, vb). name \<notin> set (columns a)) (cols b))\<rparr>
      else Inl InvalidIndexError)"

text \<open>Python's \<^verbatim>\<open>sub in s\<close> on strings.\<close>

fun contains :: "string \<Rightarrow> string \<Rightarrow> bool" where
  "contains sub [] = (sub = [])"
| "contains sub (c # cs) = (take (length sub) (c # cs) = sub \<or> contains sub cs)"

text \<open>The test of the concatenation looks for the suffixes that \<^verbatim>\<open>read_csv\<close> gives to
  repeated labels: \<^verbatim>\<open>[col for col in combined.columns if '.1' in col or '.2' in col]\<close>.\<close>

definition duplicate_marker :: "string \<Rightarrow> bool" where
  "duplicate_marker col = (contains ''.1'' col \<or> contains ''.2'' col)"

definition duplicate_cols :: "'v dataframe \<Rightarrow> string list" where
  "duplicate_cols df = filter duplicate_marker (columns df)"

section \<open>The words of the column rewrite\<close>

text \<open>
  The statement to compare the compiled pattern with: a match of
  \<^verbatim>\<open>study_desc.|doc_desc.|study_info.|method.\<close> is one of the four stems followed by one
  character that the dot stands for. \<open>occurs_at dot s\<close> says that a match starts at the
  head of \<open>s\<close>, for the set \<open>dot\<close> of characters the dot stands for.
\<close>

definition stems :: "string list" where
  "stems = [''study_desc'', ''doc_desc'', ''study_info'', ''method'']"

definition occurs_at :: "(char \<Rightarrow> bool) \<Rightarrow> string \<Rightarrow> bool" where
  "occurs_at dot s =
     list_ex (\<lambda>stem. length stem < length s \<and> take (length stem) s = stem
                      \<and> dot (s ! length stem)) stems"

text \<open>Every character, and every character but the line feed.\<close>

definition any_char :: "char \<Rightarrow> bool" where
  "any_char c = True"

definition python_dot :: "char \<Rightarrow> bool" where
  "python_dot c = (c \<noteq> CHR 0x0A)"

section \<open>Evaluation of the column rewrite\<close>

lemma compiled_patterns:
  "re_compile (join ''|'' patterns_to_remove) =
     [map Lit ''study_desc'' @ [AnyChar], map Lit ''doc_desc'' @ [AnyChar],
      map Lit ''study_info'' @ [AnyChar], map Lit ''method'' @ [AnyChar]]"
  by (simp add: patterns_to_remove_def)

lemmas rewrite_eval =
  rewrite_column_def remove_patterns_def str_replace_def compiled_patterns

lemma cols_consolidate:
  "cols (consolidate rd df) = map (\<lambda>(name, vs). (rewrite_column rd name, vs)) (cols df)"
  by (simp add: consolidate_def rename_columns_def rewrite_column_def case_prod_unfold comp_def)

section \<open>Consolidation of the five sibling leaves\<close>

text \<open>
  C1. The specification expects that a record with the five keys
  \<^verbatim>\<open>study_desc.version_statement.version\<close>, \<^verbatim>\<open>doc_desc.version_statement.version\<close>,
  \<^verbatim>\<open>study_info.notes\<close>, \<^verbatim>\<open>method.notes\<close> and \<^verbatim>\<open>data_collection.sampling_procedure\<close> is
  consolidated to five distinct keys with the values unchanged. The column rewrite of
  \<^verbatim>\<open>process_datasets\<close> keeps the values but strips the section prefixes, whichever
  default the second replacement has: both version columns come out as
  \<^verbatim>\<open>version_statement.version\<close>, both notes columns as \<^verbatim>\<open>notes\<close>, and the sampling
  procedure as \<^verbatim>\<open>method_sampling_procedure\<close>.
\<close>

theorem consolidate_five_keys_collide:
  "cols (consolidate rd
     \<lparr>nrows = 1,
      cols = [(''study_desc.version_statement.version'', [Some ''1.0'']),
              (''doc_desc.version_statement.version'', [Some ''1.1'']),
              (''study_info.notes'', [Some ''n1'']),
              (''method.notes'', [Some ''n2'']),
              (''data_collection.sampling_procedure'', [Some ''random''])]\<rparr>)
   = [(''version_statement.version'', [Some ''1.0'']),
      (''version_statement.version'', [Some ''1.1'']),
      (''notes'', [Some ''n1'']),
      (''notes'', [Some ''n2'']),
      (''method_sampling_procedure'', [Some ''random''])]"
  by (cases rd) (simp_all add: cols_consolidate rewrite_eval)

section \<open>The table that is written\<close>

lemma cols_process_datasets:
  "cols (process_datasets rd df) =
     filter (\<lambda>(name, vs). name \<noteq> ''schematype'')
       (filter (\<lambda>(name, vs). \<not> all_na vs) (cols (consolidate rd df)))"
proof -
  let ?kept = "filter (\<lambda>(name, vs). \<not> all_na vs) (cols (consolidate rd df))"
  have "filter (\<lambda>(name, vs). name \<noteq> ''schematype'') ?kept = ?kept"
    if "''schematype'' \<notin> fst ` set ?kept"
    using that by (intro filter_True) (auto simp: image_iff)
  then show ?thesis
    by (auto simp: process_datasets_def Let_def dropna_columns_def drop_column_def
          columns_def)
qed

lemma rewrite_column_id: "rewrite_column rd ''id'' = ''id''"
  by (cases rd) (simp_all add: rewrite_eval)

text \<open>
  C8. The table that \<^verbatim>\<open>process_datasets\<close> writes has no column named \<^verbatim>\<open>schematype\<close> and no
  column whose cells are all missing; every other consolidated column is written, and
  nothing else is. So the columns written depend on the data: of two frames with the
  one column \<^verbatim>\<open>id\<close>, the one with a value keeps the column and the one without loses it.
\<close>

theorem process_datasets_drops_null_and_schematype:
  "''schematype'' \<notin> set (columns (process_datasets rd df))
   \<and> (\<forall>(name, vs) \<in> set (cols (process_datasets rd df)). \<not> all_na vs)
   \<and> (\<forall>(name, vs) \<in> set (cols (consolidate rd df)).
         name \<noteq> ''schematype'' \<and> \<not> all_na vs
           \<longrightarrow> (name, vs) \<in> set (cols (process_datasets rd df)))
   \<and> set (cols (process_datasets rd df)) \<subseteq> set (cols (consolidate rd df))
   \<and> columns (process_datasets rd \<lparr>nrows = 1, cols = [(''id'', [Some v])]\<rparr>) = [''id'']
   \<and> columns (process_datasets rd \<lparr>nrows = 1, cols = [(''id'', [None])]\<rparr>) = []"
proof -
  have "columns (process_datasets rd \<lparr>nrows = 1, cols = [(''id'', [Some v])]\<rparr>) = [''id'']"
    by (simp add: columns_def cols_process_datasets cols_consolidate rewrite_column_id
          all_na_def)
  moreover
  have "columns (process_datasets rd \<lparr>nrows = 1, cols = [(''id'', [None])]\<rparr>) = []"
    by (simp add: columns_def cols_process_datasets cols_consolidate all_na_def)
  ultimately show ?thesis
    by (auto simp: cols_process_datasets columns_def)
qed

theorem process_datasets_drops_null_and_schematype_witness:
  "cols (process_datasets False
     \<lparr>nrows = 2,
      cols = [(''id'', [Some (1::nat), Some 2]), (''schematype'', [Some 3, Some 4]),
              (''study_info.coll_mode'', [None, None]),
              (''method.notes'', [None, Some 5])]\<rparr>)
   = [(''id'', [Some 1, Some 2]), (''notes'', [None, Some 5])]
   \<and> ''schematype'' \<notin> set (columns (process_datasets False
     \<lparr>nrows = 2,
      cols = [(''id'', [Some (1::nat), Some 2]), (''schematype'', [Some 3, Some 4]),
              (''study_info.coll_mode'', [None, None]),
              (''method.notes'', [None, Some 5])]\<rparr>))
   \<and> \<not> all_na [None, Some (5::nat)]"
  using process_datasets_drops_null_and_schematype [of False
     "\<lparr>nrows = 2,
      cols = [(''id'', [Some (1::nat), Some 2]), (''schematype'', [Some 3, Some 4]),
              (''study_info.coll_mode'', [None, None]),
              (''method.notes'', [None, Some 5])]\<rparr>"]
  by (simp add: columns_def cols_process_datasets cols_consolidate rewrite_eval all_na_def)

section \<open>Collisions of consolidated names\<close>

text \<open>
  C2. The specification demands that consolidation never yields two equal keys in one
  row and that a collision is raised, not passed over. \<^verbatim>\<open>process_datasets\<close> does neither:
  for a frame with the columns \<^verbatim>\<open>study_info.notes\<close> and \<^verbatim>\<open>method.notes\<close>, under either
  default of the second replacement, no statement raises and the table that is written
  has two columns labelled \<^verbatim>\<open>notes\<close>. This is the collision of C1 again, the one that the
  repository's test of the prefix mapping reports as ``Duplicate columns detected!''.
\<close>

theorem process_datasets_writes_equal_labels:
  "cols (process_datasets rd
     \<lparr>nrows = 1,
      cols = [(''study_info.notes'', [Some ''n1'']), (''method.notes'', [Some ''n2''])]\<rparr>)
   = [(''notes'', [Some ''n1'']), (''notes'', [Some ''n2''])]
   \<and> \<not> distinct (columns (process_datasets rd
     \<lparr>nrows = 1,
      cols = [(''study_info.notes'', [Some ''n1'']), (''method.notes'', [Some ''n2''])]\<rparr>))"
  by (cases rd)
     (simp_all add: columns_def cols_process_datasets cols_consolidate rewrite_eval all_na_def)

section \<open>The compiled pattern and its words\<close>

lemma match_here_stem:
  "match_here (map Lit stem @ [AnyChar]) s =
     (if length stem < length s \<and> take (length stem) s = stem \<and> python_dot (s ! length stem)
      then Some (Suc (length stem)) else None)"
proof (induction stem arbitrary: s)
  case Nil
  then show ?case by (cases s) (simp_all add: python_dot_def)
next
  case (Cons a stem)
  then show ?case by (cases s) auto
qed

lemma match_alts_stems:
  "match_alts (map (\<lambda>stem. map Lit stem @ [AnyChar]) sts) s =
     map_option (\<lambda>stem. Suc (length stem))
       (find (\<lambda>stem. length stem < length s \<and> take (length stem) s = stem
                       \<and> python_dot (s ! length stem)) sts)"
  by (induction sts) (simp_all add: match_here_stem)

lemma compiled_patterns_stems:
  "re_compile (join ''|'' patterns_to_remove) = map (\<lambda>stem. map Lit stem @ [AnyChar]) stems"
  by (simp add: compiled_patterns stems_def)

lemma no_match_iff:
  "match_alts (re_compile (join ''|'' patterns_to_remove)) s = None
     \<longleftrightarrow> \<not> occurs_at python_dot s"
  by (auto simp: compiled_patterns_stems match_alts_stems occurs_at_def find_None_iff
        list_ex_iff)

lemma match_at_stem:
  assumes "stem \<in> set stems" and "python_dot c"
  shows "match_alts (re_compile (join ''|'' patterns_to_remove)) (stem @ c # post)
           = Some (Suc (length stem))"
  using assms
  by (auto simp: compiled_patterns_stems match_alts_stems stems_def python_dot_def)

lemma remove_patterns_Nil: "remove_patterns [] = []"
  by (simp add: rewrite_eval)

lemma remove_patterns_skip:
  assumes "\<not> occurs_at python_dot (x # s)"
  shows "remove_patterns (x # s) = x # remove_patterns s"
proof -
  have "match_alts (re_compile (join ''|'' patterns_to_remove)) (x # s) = None"
    using assms by (simp add: no_match_iff)
  then show ?thesis
    by (simp add: remove_patterns_def str_replace_def)
qed

lemma remove_patterns_match:
  assumes "stem \<in> set stems" and "python_dot c"
  shows "remove_patterns (stem @ c # post) = remove_patterns post"
proof -
  from assms(1) obtain x xs where stem: "stem = x # xs"
    by (cases stem) (auto simp: stems_def)
  have "match_alts (re_compile (join ''|'' patterns_to_remove)) (x # xs @ c # post)
          = Some (Suc (length stem))"
    using match_at_stem [OF assms, of post] by (simp add: stem)
  then show ?thesis
    by (simp add: remove_patterns_def str_replace_def stem)
qed

lemma remove_patterns_leftmost:
  assumes "stem \<in> set stems" and "python_dot c"
    and "\<forall>i < length pre. \<not> occurs_at python_dot (drop i (pre @ stem @ c # post))"
  shows "remove_patterns (pre @ stem @ c # post) = pre @ remove_patterns post"
  using assms(3)
proof (induction pre)
  case Nil
  show ?case using assms(1,2) by (simp add: remove_patterns_match)
next
  case (Cons x pre)
  have here: "\<not> occurs_at python_dot (x # pre @ stem @ c # post)"
    using Cons.prems by force
  have later: "\<forall>i < length pre. \<not> occurs_at python_dot (drop i (pre @ stem @ c # post))"
  proof (intro allI impI)
    fix i assume "i < length pre"
    then have "\<not> occurs_at python_dot (drop (Suc i) ((x # pre) @ stem @ c # post))"
      using Cons.prems by (metis Suc_less_eq length_Cons)
    then show "\<not> occurs_at python_dot (drop i (pre @ stem @ c # post))"
      by simp
  qed
  show ?case
    using remove_patterns_skip [OF here] Cons.IH [OF later] by simp
qed

lemma remove_patterns_unchanged:
  assumes "\<forall>i < length s. \<not> occurs_at python_dot (drop i s)"
  shows "remove_patterns s = s"
  using assms
proof (induction s)
  case Nil
  show ?case by (rule remove_patterns_Nil)
next
  case (Cons x s)
  have here: "\<not> occurs_at python_dot (x # s)"
    using Cons.prems by force
  have "\<forall>i < length s. \<not> occurs_at python_dot (drop i s)"
  proof (intro allI impI)
    fix i assume "i < length s"
    then have "\<not> occurs_at python_dot (drop (Suc i) (x # s))"
      using Cons.prems by (metis Suc_less_eq length_Cons)
    then show "\<not> occurs_at python_dot (drop i s)"
      by simp
  qed
  then show ?case
    using remove_patterns_skip [OF here] Cons.IH by simp
qed

text \<open>
  C9, as stated: every part of a label that is one of \<^verbatim>\<open>study_desc\<close>, \<^verbatim>\<open>doc_desc\<close>,
  \<^verbatim>\<open>study_info\<close>, \<^verbatim>\<open>method\<close> followed by any single character is deleted. The dot of a
  Python pattern does not stand for the line feed: the label \<^verbatim>\<open>method\<close>, line feed,
  \<^verbatim>\<open>x\<close> holds such a part and is left as it is, where the claim gives \<^verbatim>\<open>x\<close>.
\<close>

theorem dot_stands_for_line_feed_counterexample:
  "''method'' \<in> set stems \<and> any_char (CHR 0x0A)
   \<and> occurs_at any_char ''method\<newline>x''
   \<and> remove_patterns ''method\<newline>x'' = ''method\<newline>x''
   \<and> remove_patterns ''x'' = ''x''
   \<and> rewrite_column True ''method\<newline>x'' = ''method\<newline>x''
   \<and> rewrite_column False ''method\<newline>x'' = ''method\<newline>x''"
  by (simp add: stems_def any_char_def occurs_at_def rewrite_eval)

text \<open>
  C9, amended. The rewrite is an unanchored regular-expression substitution, with the
  dot standing for every character but the line feed. Scanning a label from the left,
  the first place where a stem followed by such a character starts is deleted with that
  character, wherever it is in the label, and the scan goes on behind it; a label with
  no such place is unchanged. Only afterwards is \<^verbatim>\<open>data_collection.\<close> replaced by
  \<^verbatim>\<open>method_\<close>. So a leading \<^verbatim>\<open>method_\<close> is deleted like a leading \<^verbatim>\<open>method.\<close>, and the
  \<^verbatim>\<open>method_\<close> that the second step writes stays.
\<close>

theorem rewrite_column_deletes_leftmost_matches:
  "(stem \<in> set stems \<and> python_dot c
      \<and> (\<forall>i < length pre. \<not> occurs_at python_dot (drop i (pre @ stem @ c # post)))
     \<longrightarrow> remove_patterns (pre @ stem @ c # post) = pre @ remove_patterns post)
   \<and> ((\<forall>i < length s. \<not> occurs_at python_dot (drop i s)) \<longrightarrow> remove_patterns s = s)
   \<and> rewrite_column rd col
       = str_replace rd ''data_collection.'' ''method_'' (remove_patterns col)
   \<and> rewrite_column rd (''method_'' @ post) = rewrite_column rd post
   \<and> rewrite_column rd ''data_collection.method.x'' = ''method_x''"
proof -
  have "''method'' \<in> set stems" and "python_dot CHR ''_''"
    by (simp_all add: stems_def python_dot_def)
  then have "remove_patterns (''method'' @ CHR ''_'' # post) = remove_patterns post"
    by (rule remove_patterns_match)
  then have start: "rewrite_column rd (''method_'' @ post) = rewrite_column rd post"
    by (simp add: rewrite_column_def)
  have order: "rewrite_column rd ''data_collection.method.x'' = ''method_x''"
    by (cases rd) (simp_all add: rewrite_eval)
  show ?thesis
    using start order
    by (simp add: remove_patterns_leftmost remove_patterns_unchanged rewrite_column_def)
qed

theorem rewrite_column_deletes_leftmost_matches_witness:
  "''study_desc'' \<in> set stems \<and> python_dot CHR ''X''
   \<and> \<not> occurs_at python_dot ''xstudy_descXy''
   \<and> remove_patterns ''xstudy_descXy'' = ''xy''
   \<and> \<not> occurs_at python_dot ''id'' \<and> \<not> occurs_at python_dot ''d''
   \<and> remove_patterns ''id'' = ''id''"
  using rewrite_column_deletes_leftmost_matches
    [of "''study_desc''" "CHR ''X''" "''x''" "''y''" "''id''"]
  by (simp add: stems_def python_dot_def occurs_at_def rewrite_eval)

section \<open>The harvest loop keeps going\<close>

lemma foldl_collect:
  "foldl (collect f) h xs =
     \<lparr>records = records h @ fetched f xs, printed = printed h @ failed f xs\<rparr>"
proof (induction xs arbitrary: h)
  case Nil
  then show ?case by (simp add: fetched_def failed_def)
next
  case (Cons x xs)
  have "foldl (collect f) h (x # xs) = foldl (collect f) (collect f h x) xs"
    by simp
  also have "\<dots> = \<lparr>records = records (collect f h x) @ fetched f xs,
      printed = printed (collect f h x) @ failed f xs\<rparr>"
    by (rule Cons.IH)
  also have "\<dots> = \<lparr>records = records h @ fetched f (x # xs),
      printed = printed h @ failed f (x # xs)\<rparr>"
    by (cases "f x") (simp_all add: collect_def fetched_def failed_def)
  finally show ?case .
qed

lemma mset_concat_map_cong:
  assumes "mset xs = mset ys"
  shows "mset (concat (map g xs)) = mset (concat (map g ys))"
proof -
  have "mset (concat (map g zs)) = \<Sum>\<^sub># (image_mset (\<lambda>z. mset (g z)) (mset zs))" for zs
    by (induction zs) simp_all
  then show ?thesis using assms by simp
qed

lemma length_fetched_failed: "length (fetched f xs) + length (failed f xs) = length xs"
proof (induction xs)
  case Nil
  then show ?case by (simp add: fetched_def failed_def)
next
  case (Cons x xs)
  then show ?case by (cases "f x") (simp_all add: fetched_def failed_def)
qed

lemma set_fetched: "set (fetched f xs) = {data. \<exists>i \<in> set xs. f i = Inr data}"
  by (auto simp: fetched_def split: sum.splits)

lemma set_failed: "set (failed f xs) = {(i, e). i \<in> set xs \<and> f i = Inl e}"
  by (auto simp: failed_def split: sum.splits)

text \<open>
  C7. A fetch that raises does not end the loop of \<^verbatim>\<open>process_meta\<close>. In whatever order
  the futures complete, the loop runs over all of them: each exception is caught and
  printed with the identifier of its fetch, and the batch returned holds exactly the
  records of the fetches that returned, once each.
\<close>

theorem process_meta_survives_failures:
  assumes "mset completed = mset ids"
  shows "records (process_meta fetch_function completed) = fetched fetch_function completed
    \<and> printed (process_meta fetch_function completed) = failed fetch_function completed
    \<and> mset (records (process_meta fetch_function completed)) = mset (fetched fetch_function ids)
    \<and> mset (printed (process_meta fetch_function completed)) = mset (failed fetch_function ids)
    \<and> set (records (process_meta fetch_function completed))
        = {data. \<exists>i \<in> set ids. fetch_function i = Inr data}
    \<and> set (printed (process_meta fetch_function completed))
        = {(i, e). i \<in> set ids \<and> fetch_function i = Inl e}
    \<and> length (records (process_meta fetch_function completed))
        + length (printed (process_meta fetch_function completed)) = length ids"
proof -
  have run: "process_meta fetch_function completed =
      \<lparr>records = fetched fetch_function completed, printed = failed fetch_function completed\<rparr>"
    by (simp add: process_meta_def foldl_collect)
  have same_set: "set completed = set ids"
    using assms by (rule mset_eq_setD)
  have same_length: "length completed = length ids"
    using assms by (rule mset_eq_length)
  have "mset (fetched fetch_function completed) = mset (fetched fetch_function ids)"
    unfolding fetched_def using assms by (rule mset_concat_map_cong)
  moreover
  have "mset (failed fetch_function completed) = mset (failed fetch_function ids)"
    unfolding failed_def using assms by (rule mset_concat_map_cong)
  moreover
  have "length (fetched fetch_function completed) + length (failed fetch_function completed)
          = length ids"
    by (simp add: length_fetched_failed same_length)
  ultimately show ?thesis
    by (simp add: run set_fetched set_failed same_set)
qed

theorem process_meta_survives_failures_witness:
  "mset [3, 1, 2] = mset [1, 2, 3 :: nat]
   \<and> records (process_meta (\<lambda>i. if i = 2 then Inl ''timeout'' else Inr (10 * i)) [3, 1, 2 :: nat])
       = [30, 10]
   \<and> printed (process_meta (\<lambda>i. if i = 2 then Inl ''timeout'' else Inr (10 * i)) [3, 1, 2 :: nat])
       = [(2, ''timeout'')]
   \<and> mset [30, 10 :: nat]
       = mset (fetched (\<lambda>i. if i = 2 then Inl ''timeout'' else Inr (10 * i)) [1, 2, 3 :: nat])"
proof -
  have perm: "mset [3, 1, 2] = mset [1, 2, 3 :: nat]"
    by simp
  show ?thesis
    using perm
      process_meta_survives_failures [OF perm,
        of "\<lambda>i. if i = 2 then Inl ''timeout'' else Inr (10 * i)"]
    by (simp add: fetched_def failed_def)
qed


section \<open>The identifier written into the payload\<close>

lemma fetch_dataset_Inr:
  "fetch_dataset requests_get shown dataset_id = Inr d \<longleftrightarrow>
     (\<exists>r kvs. requests_get (DATASET_EXPORT_URL_format (shown dataset_id)) = Inr r
        \<and> \<not> (400 \<le> status_code r \<and> status_code r < 600)
        \<and> body r = Some (JObj kvs)
        \<and> d = JObj (AList.update ''id'' dataset_id kvs))"
  by (auto simp: fetch_dataset_def raise_for_status_def setitem_def
        split: sum.splits option.splits json.splits if_splits)

text \<open>
  C10. When the request succeeds and the body is a JSON object, \<^verbatim>\<open>fetch_dataset\<close>
  returns that object with the key \<^verbatim>\<open>id\<close> set to its argument and every other key as it
  was, whether or not the payload had an \<^verbatim>\<open>id\<close> of its own; and whatever it returns is an
  object whose \<^verbatim>\<open>id\<close> is the argument.
\<close>

theorem fetch_dataset_sets_id:
  "(requests_get (DATASET_EXPORT_URL_format (shown dataset_id)) = Inr r
      \<and> \<not> (400 \<le> status_code r \<and> status_code r < 600)
      \<and> body r = Some (JObj kvs)
    \<longrightarrow> (\<exists>kvs'. fetch_dataset requests_get shown dataset_id = Inr (JObj kvs')
          \<and> map_of kvs' = (map_of kvs)(''id'' \<mapsto> dataset_id)))
   \<and> (fetch_dataset requests_get shown dataset_id = Inr d
    \<longrightarrow> (\<exists>kvs'. d = JObj kvs' \<and> map_of kvs' ''id'' = Some dataset_id))"
proof (intro conjI impI)
  assume "requests_get (DATASET_EXPORT_URL_format (shown dataset_id)) = Inr r
      \<and> \<not> (400 \<le> status_code r \<and> status_code r < 600)
      \<and> body r = Some (JObj kvs)"
  then have "fetch_dataset requests_get shown dataset_id
      = Inr (JObj (AList.update ''id'' dataset_id kvs))"
    unfolding fetch_dataset_Inr by blast
  then show "\<exists>kvs'. fetch_dataset requests_get shown dataset_id = Inr (JObj kvs')
          \<and> map_of kvs' = (map_of kvs)(''id'' \<mapsto> dataset_id)"
    by (simp add: update_conv')
next
  assume "fetch_dataset requests_get shown dataset_id = Inr d"
  then obtain kvs0 where "d = JObj (AList.update ''id'' dataset_id kvs0)"
    unfolding fetch_dataset_Inr by blast
  then show "\<exists>kvs'. d = JObj kvs' \<and> map_of kvs' ''id'' = Some dataset_id"
    by (simp add: update_conv')
qed

theorem fetch_dataset_sets_id_witness:
  "\<not> (400 \<le> status_code \<lparr>status_code = 200,
        body = Some (JObj [(''id'', JStr ''remote''), (''title'', JStr ''Survey'')])\<rparr>
      \<and> status_code \<lparr>status_code = 200,
        body = Some (JObj [(''id'', JStr ''remote''), (''title'', JStr ''Survey'')])\<rparr> < 600)
   \<and> fetch_dataset
       (\<lambda>url. Inr \<lparr>status_code = 200,
          body = Some (JObj [(''id'', JStr ''remote''), (''title'', JStr ''Survey'')])\<rparr>)
       (\<lambda>j. ''7'') (JNum 7)
     = Inr (JObj [(''id'', JNum 7), (''title'', JStr ''Survey'')])"
  using fetch_dataset_sets_id
    [of "\<lambda>url. Inr \<lparr>status_code = 200,
          body = Some (JObj [(''id'', JStr ''remote''), (''title'', JStr ''Survey'')])\<rparr>"
        "\<lambda>j. ''7''" "JNum 7"
        "\<lparr>status_code = 200,
          body = Some (JObj [(''id'', JStr ''remote''), (''title'', JStr ''Survey'')])\<rparr>"
        "[(''id'', JStr ''remote''), (''title'', JStr ''Survey'')]"
        "JObj [(''id'', JNum 7), (''title'', JStr ''Survey'')]"]
  by (simp add: fetch_dataset_def raise_for_status_def setitem_def)

section \<open>Schema enforcement\<close>

lemma columns_enforce: "columns (enforce conv df schema) = map fst schema"
  by (simp add: enforce_def columns_def case_prod_unfold comp_def)

lemma nrows_enforce: "nrows (enforce conv df schema) = nrows df"
  by (simp add: enforce_def)

lemma cols_enforce_absent:
  assumes "name \<notin> set (columns df)"
  shows "(name, vs) \<in> set (cols (enforce conv df schema))
     \<longleftrightarrow> name \<in> fst ` set schema \<and> vs = replicate (nrows df) None"
proof -
  have "map_of (cols df) name = None"
    using assms by (simp add: map_of_eq_None_iff columns_def)
  then show ?thesis
    by (force simp: enforce_def image_iff)
qed

lemma coerce_None: "coerce conv t None = None"
  by (simp add: coerce_def)

lemma coerce_idem: "coerce conv t (coerce conv t cell) = coerce conv t cell"
  by (cases cell) (auto simp: coerce_def split: option.splits)

lemma map_of_map_schema:
  assumes "distinct (map fst schema)" and "(name, tag) \<in> set schema"
  shows "map_of (map (\<lambda>(n, t). (n, g n t)) schema) name = Some (g name tag)"
  using assms
proof (induction schema)
  case Nil
  then show ?case by simp
next
  case (Cons entry schema)
  then show ?case
    by (cases entry) (auto simp: image_iff)
qed

text \<open>
  C3. Whatever columns the input has, the result of \<^verbatim>\<open>enforce\<close> has exactly the columns
  of the schema (in the schema's order) and the rows of the input. A declared column
  that the input lacks is there, and missing in every row (the marker, not the empty
  string); an input column that the schema does not declare is gone.
\<close>

theorem enforce_columns_are_schema:
  "columns (enforce conv df schema) = map fst schema
   \<and> set (columns (enforce conv df schema)) = fst ` set schema
   \<and> nrows (enforce conv df schema) = nrows df
   \<and> (\<forall>name \<in> fst ` set schema. name \<notin> set (columns df) \<longrightarrow>
         (name, replicate (nrows df) None) \<in> set (cols (enforce conv df schema))
         \<and> (\<forall>vs. (name, vs) \<in> set (cols (enforce conv df schema)) \<longrightarrow>
               vs = replicate (nrows df) None \<and> Some (Str []) \<notin> set vs))
   \<and> (\<forall>name \<in> set (columns df). name \<notin> fst ` set schema \<longrightarrow>
         name \<notin> set (columns (enforce conv df schema)))"
  by (simp add: columns_enforce nrows_enforce cols_enforce_absent)

theorem enforce_columns_are_schema_witness:
  "cols (enforce no_conversion
      \<lparr>nrows = 2,
       cols = [(''id'', [Some (Num 1), Some (Num 2)]),
               (''title'', [Some (Str ''A''), Some (Str ''B'')]),
               (''extra_column'', [Some (Str ''X''), Some (Str ''Y'')])]\<rparr>
      [(''id'', TNumeric), (''title'', TStr), (''abstract'', TStr)])
   = [(''id'', [Some (Num 1), Some (Num 2)]),
      (''title'', [Some (Str ''A''), Some (Str ''B'')]),
      (''abstract'', [None, None])]
   \<and> ''abstract'' \<in> fst ` set [(''id'', TNumeric), (''title'', TStr), (''abstract'', TStr)]
   \<and> ''abstract'' \<notin> set (columns
      \<lparr>nrows = 2,
       cols = [(''id'', [Some (Num 1), Some (Num 2)]),
               (''title'', [Some (Str ''A''), Some (Str ''B'')]),
               (''extra_column'', [Some (Str ''X''), Some (Str ''Y'')])]\<rparr>)
   \<and> ''extra_column'' \<notin> fst ` set [(''id'', TNumeric), (''title'', TStr), (''abstract'', TStr)]
   \<and> ''extra_column'' \<notin> set (columns (enforce no_conversion
      \<lparr>nrows = 2,
       cols = [(''id'', [Some (Num 1), Some (Num 2)]),
               (''title'', [Some (Str ''A''), Some (Str ''B'')]),
               (''extra_column'', [Some (Str ''X''), Some (Str ''Y'')])]\<rparr>
      [(''id'', TNumeric), (''title'', TStr), (''abstract'', TStr)]))"
  using enforce_columns_are_schema [of no_conversion
      "\<lparr>nrows = 2,
       cols = [(''id'', [Some (Num 1), Some (Num 2)]),
               (''title'', [Some (Str ''A''), Some (Str ''B'')]),
               (''extra_column'', [Some (Str ''X''), Some (Str ''Y'')])]\<rparr>"
      "[(''id'', TNumeric), (''title'', TStr), (''abstract'', TStr)]"]
  by (simp add: enforce_def columns_def coerce_def no_conversion_def numeral_2_eq_2)

text \<open>
  C5. \<^verbatim>\<open>enforce\<close> is idempotent: for a schema (a mapping, so its names are distinct),
  enforcing the result once more against the same schema gives the same table.
\<close>

theorem enforce_idempotent:
  assumes "distinct (map fst schema)"
  shows "enforce conv (enforce conv df schema) schema = enforce conv df schema"
proof -
  define g where "g = (\<lambda>name tag. case map_of (cols df) name of
      None \<Rightarrow> replicate (nrows df) None
    | Some vs \<Rightarrow> map (coerce conv tag) vs)"
  have first: "cols (enforce conv df schema) = map (\<lambda>(n, t). (n, g n t)) schema"
    by (simp add: enforce_def g_def)
  have fixed: "map (coerce conv tag) (g name tag) = g name tag" for name tag
    by (simp add: g_def coerce_idem coerce_None split: option.splits)
  have "(case map_of (cols (enforce conv df schema)) name of
           None \<Rightarrow> replicate (nrows (enforce conv df schema)) None
         | Some vs \<Rightarrow> map (coerce conv tag) vs) = g name tag"
    if "(name, tag) \<in> set schema" for name tag
    using map_of_map_schema [OF assms that, of g] by (simp add: first fixed)
  then have "cols (enforce conv (enforce conv df schema) schema)
      = map (\<lambda>(n, t). (n, g n t)) schema"
    unfolding enforce_def [of conv "enforce conv df schema"] by (auto simp: case_prod_unfold)
  then show ?thesis
    by (simp add: enforce_def [of conv "enforce conv df schema"] first [symmetric]
          nrows_enforce enforce_def [of conv df])
qed

theorem enforce_idempotent_witness:
  "distinct (map fst [(''id'', TNumeric), (''title'', TStr), (''abstract'', TStr)])
   \<and> enforce (\<lambda>t v. if t = TNumeric \<and> v = Str ''7'' then Some (Num 7) else None)
       \<lparr>nrows = 2,
        cols = [(''id'', [Some (Str ''7''), Some (Str ''seven'')]),
                (''title'', [Some (Str ''A''), None]),
                (''extra_column'', [Some (Str ''X''), Some (Str ''Y'')])]\<rparr>
       [(''id'', TNumeric), (''title'', TStr), (''abstract'', TStr)]
     = \<lparr>nrows = 2,
        cols = [(''id'', [Some (Num 7), Some (Str ''seven'')]),
                (''title'', [Some (Str ''A''), None]),
                (''abstract'', [None, None])]\<rparr>
   \<and> enforce (\<lambda>t v. if t = TNumeric \<and> v = Str ''7'' then Some (Num 7) else None)
       \<lparr>nrows = 2,
        cols = [(''id'', [Some (Num 7), Some (Str ''seven'')]),
                (''title'', [Some (Str ''A''), None]),
                (''abstract'', [None, None])]\<rparr>
       [(''id'', TNumeric), (''title'', TStr), (''abstract'', TStr)]
     = \<lparr>nrows = 2,
        cols = [(''id'', [Some (Num 7), Some (Str ''seven'')]),
                (''title'', [Some (Str ''A''), None]),
                (''abstract'', [None, None])]\<rparr>"
proof -
  have keys: "distinct (map fst [(''id'', TNumeric), (''title'', TStr), (''abstract'', TStr)])"
    by simp
  have once: "enforce (\<lambda>t v. if t = TNumeric \<and> v = Str ''7'' then Some (Num 7) else None)
       \<lparr>nrows = 2,
        cols = [(''id'', [Some (Str ''7''), Some (Str ''seven'')]),
                (''title'', [Some (Str ''A''), None]),
                (''extra_column'', [Some (Str ''X''), Some (Str ''Y'')])]\<rparr>
       [(''id'', TNumeric), (''title'', TStr), (''abstract'', TStr)]
     = \<lparr>nrows = 2,
        cols = [(''id'', [Some (Num 7), Some (Str ''seven'')]),
                (''title'', [Some (Str ''A''), None]),
                (''abstract'', [None, None])]\<rparr>"
    by (simp add: enforce_def coerce_def numeral_2_eq_2)
  show ?thesis
    using keys once
      enforce_idempotent [OF keys,
        of "\<lambda>t v. if t = TNumeric \<and> v = Str ''7'' then Some (Num 7) else None"
        "\<lparr>nrows = 2,
        cols = [(''id'', [Some (Str ''7''), Some (Str ''seven'')]),
                (''title'', [Some (Str ''A''), None]),
                (''extra_column'', [Some (Str ''X''), Some (Str ''Y'')])]\<rparr>"]
    by simp
qed

section \<open>Concatenation of enforced batches\<close>

lemma map_fst_map2_append:
  "length xs = length ys \<Longrightarrow>
     map fst (map2 (\<lambda>(name, va) (name', vb). (name, va @ vb)) xs ys) = map fst xs"
  by (induction xs ys rule: list_induct2) (auto simp: case_prod_unfold)

lemma pd_concat_same_columns:
  assumes "columns a = columns b"
  shows "\<exists>t. pd_concat a b = Inr t \<and> columns t = columns a
           \<and> nrows t = nrows a + nrows b"
proof -
  let ?t = "\<lparr>nrows = nrows a + nrows b,
             cols = map2 (\<lambda>(name, va) (name', vb). (name, va @ vb)) (cols a) (cols b)\<rparr>"
  have len: "length (cols a) = length (cols b)"
    using assms unfolding columns_def by (rule map_eq_imp_length_eq)
  have "pd_concat a b = Inr ?t"
    using assms by (simp add: pd_concat_def)
  moreover have "columns ?t = columns a"
    using map_fst_map2_append [OF len] by (simp add: columns_def)
  moreover have "nrows ?t = nrows a + nrows b"
    by simp
  ultimately show ?thesis
    by blast
qed

text \<open>
  C4, as stated: the concatenation of two batches enforced against the same schema has
  no column whose name contains \<^verbatim>\<open>.1\<close> or \<^verbatim>\<open>.2\<close>. The columns are those of the schema,
  so a schema that declares the column \<^verbatim>\<open>v.1\<close> gives a concatenation with that column.
\<close>

theorem concat_counterexample:
  "pd_concat
     (enforce no_conversion \<lparr>nrows = 1, cols = [(''v.1'', [Some (Str ''old'')])]\<rparr>
        [(''v.1'', TStr)])
     (enforce no_conversion \<lparr>nrows = 1, cols = [(''v.1'', [Some (Str ''new'')])]\<rparr>
        [(''v.1'', TStr)])
   = Inr \<lparr>nrows = 2, cols = [(''v.1'', [Some (Str ''old''), Some (Str ''new'')])]\<rparr>
   \<and> duplicate_cols
       \<lparr>nrows = 2, cols = [(''v.1'', [Some (Str ''old''), Some (Str ''new'')])]\<rparr> = [''v.1'']"
  by (simp add: pd_concat_def enforce_def columns_def coerce_def duplicate_cols_def
        duplicate_marker_def)

text \<open>
  C4, amended. The concatenation of two batches enforced against the same schema
  succeeds; its columns are exactly those of the schema, in the schema's order, and its
  row count is the sum of the two row counts. The columns whose name contains \<^verbatim>\<open>.1\<close> or
  \<^verbatim>\<open>.2\<close> are those that the schema itself declares with such a name: when the schema
  declares none, the concatenation has none.
\<close>

theorem concat_of_enforced_batches:
  "\<exists>t. pd_concat (enforce conv a schema) (enforce conv b schema) = Inr t
     \<and> columns t = map fst schema
     \<and> set (columns t) = fst ` set schema
     \<and> nrows t = nrows a + nrows b
     \<and> duplicate_cols t = filter duplicate_marker (map fst schema)
     \<and> ((\<forall>name \<in> fst ` set schema. \<not> duplicate_marker name) \<longrightarrow> duplicate_cols t = [])"
proof -
  have "columns (enforce conv a schema) = columns (enforce conv b schema)"
    by (simp add: columns_enforce)
  from pd_concat_same_columns [OF this]
  obtain t where t: "pd_concat (enforce conv a schema) (enforce conv b schema) = Inr t"
    "columns t = map fst schema" "nrows t = nrows a + nrows b"
    by (auto simp: columns_enforce nrows_enforce)
  have "duplicate_cols t = filter duplicate_marker (map fst schema)"
    by (simp add: duplicate_cols_def t(2))
  moreover have "filter duplicate_marker (map fst schema) = []"
    if "\<forall>name \<in> fst ` set schema. \<not> duplicate_marker name"
    using that by (auto simp: filter_empty_conv)
  ultimately show ?thesis
    using t by auto
qed

theorem concat_of_enforced_batches_witness:
  "\<not> list_ex duplicate_marker (map fst WORLD_BANK_SCHEMA)
   \<and> (case pd_concat
        (enforce no_conversion
           \<lparr>nrows = 1, cols = [(''id'', [Some (Num 1)]), (''title'', [Some (Str ''Old'')])]\<rparr>
           WORLD_BANK_SCHEMA)
        (enforce no_conversion
           \<lparr>nrows = 1, cols = [(''id'', [Some (Num 2)]), (''title'', [Some (Str ''New'')]),
                               (''extra_field'', [Some (Str ''Extra'')])]\<rparr>
           WORLD_BANK_SCHEMA) of
        Inl e \<Rightarrow> False
      | Inr t \<Rightarrow> duplicate_cols t = [] \<and> nrows t = 2
          \<and> take 2 (cols t) = [(''id'', [Some (Num 1), Some (Num 2)]),
                                  (''title'', [Some (Str ''Old''), Some (Str ''New'')])])"
  using concat_of_enforced_batches [of no_conversion
        "\<lparr>nrows = 1, cols = [(''id'', [Some (Num 1)]), (''title'', [Some (Str ''Old'')])]\<rparr>"
        WORLD_BANK_SCHEMA
        "\<lparr>nrows = 1, cols = [(''id'', [Some (Num 2)]), (''title'', [Some (Str ''New'')]),
                               (''extra_field'', [Some (Str ''Extra'')])]\<rparr>"]
  by (simp add: pd_concat_def enforce_def columns_def coerce_def duplicate_cols_def
        duplicate_marker_def WORLD_BANK_SCHEMA_def numeral_2_eq_2)

section \<open>The schema registry\<close>

text \<open>
  C6. \<^verbatim>\<open>schema_for\<close> returns a schema for each registered source, \<^verbatim>\<open>worldbank\<close> and
  \<^verbatim>\<open>unhcr\<close>, and an unknown-source error for every other identifier, with no default.
  The World Bank schema holds \<^verbatim>\<open>study.version_statement.version\<close> and
  \<^verbatim>\<open>doc.version_statement.version\<close>, two different keys, and \<^verbatim>\<open>invalid-source\<close> fails.
\<close>

theorem schema_for_registered_or_unknown:
  "schema_for ''worldbank'' = Inr WORLD_BANK_SCHEMA
   \<and> schema_for ''unhcr'' = Inr UNHCR_SCHEMA
   \<and> (source_id \<in> {''worldbank'', ''unhcr''} \<longrightarrow> (\<exists>s. schema_for source_id = Inr s))
   \<and> (source_id \<notin> {''worldbank'', ''unhcr''} \<longrightarrow>
        schema_for source_id = Inl (UnknownSource source_id))
   \<and> (\<exists>s. schema_for ''worldbank'' = Inr s
         \<and> ''study.version_statement.version'' \<in> fst ` set s
         \<and> ''doc.version_statement.version'' \<in> fst ` set s
         \<and> ''study.version_statement.version'' \<noteq> ''doc.version_statement.version''
         \<and> distinct (map fst s))
   \<and> schema_for ''invalid-source'' = Inl (UnknownSource ''invalid-source'')"
  by (auto simp: schema_for_def WORLD_BANK_SCHEMA_def)

theorem schema_for_registered_or_unknown_witness:
  "''unhcr'' \<in> {''worldbank'', ''unhcr''}
   \<and> schema_for ''unhcr'' = Inr [(''id'', TNumeric), (''title'', TStr)]
   \<and> ''invalid'' \<notin> {''worldbank'', ''unhcr''}
   \<and> schema_for ''invalid'' = Inl (UnknownSource ''invalid'')"
  using schema_for_registered_or_unknown [of "''unhcr''"]
    schema_for_registered_or_unknown [of "''invalid''"]
  by (simp add: UNHCR_SCHEMA_def)

end
